theory Spec2Isabelle
  imports Main "HOL-Library.Word"
begin

unbundle bit_operations_syntax

section \<open>Python values and errors\<close>

text \<open>
  Bytes are 8-bit words, a byte string is a list of them. A Python \<open>str\<close> is a list of
  Unicode code points (natural numbers), so that \<open>length\<close> counts what \<open>len\<close> counts.
  Python's unbounded integers are \<open>int\<close>.
\<close>

type_synonym byte = "8 word"
type_synonym pybytes = "byte list"
type_synonym pystr = "nat list"

datatype error = StructError | AssertionError | UnicodeEncodeError | TypeError | EncoderError

text \<open>
  The Python objects that the functions below tell apart by type. A float is kept as
  mantissa and binary exponent; only its type matters here.
\<close>

datatype pyobj =
    PyNone
  | PyInt int
  | PyFloat int int
  | PyStr pystr
  | PyBytes pybytes
  | PyByteArray pybytes
  | PyMemoryview pybytes
  | PyList "pyobj list"
  | PyTuple "pyobj list"
  | PySet "pyobj list"

text \<open>Results of a sequence of steps that may raise: the first error wins, the bytes are joined.\<close>

fun pack_all :: "(error + 'a list) list \<Rightarrow> error + 'a list" where
  "pack_all [] = Inr []"
| "pack_all (Inl e # _) = Inl e"
| "pack_all (Inr b # rest) = (case pack_all rest of Inl e \<Rightarrow> Inl e | Inr bs \<Rightarrow> Inr (b @ bs))"

text \<open>Slices \<open>xs[:n]\<close> and \<open>xs[n:]\<close>: a negative bound counts from the end, and both clamp.\<close>

definition py_slice_to :: "'a list \<Rightarrow> int \<Rightarrow> 'a list" where
  "py_slice_to xs n = (if 0 \<le> n then take (nat n) xs else take (length xs - nat (- n)) xs)"

definition py_slice_from :: "'a list \<Rightarrow> int \<Rightarrow> 'a list" where
  "py_slice_from xs n = (if 0 \<le> n then drop (nat n) xs else drop (length xs - nat (- n)) xs)"

text \<open>
  \<open>s.replace(old, new)\<close>: the occurrences of \<open>old\<close> are found from the left and do not
  overlap; an empty \<open>old\<close> matches before every character and at the end.
\<close>

function py_replace :: "'a list \<Rightarrow> 'a list \<Rightarrow> 'a list \<Rightarrow> 'a list" where
  "py_replace s old new =
     (if old = [] then new @ concat (map (\<lambda>c. c # new) s)
      else if s = [] then []
      else if take (length old) s = old then new @ py_replace (drop (length old) s) old new
      else hd s # py_replace (tl s) old new)"
  by pat_completeness auto
termination
  by (relation "measure (\<lambda>(s, old, new). length s)") auto

declare py_replace.simps [simp del]

section \<open>String functions (\<open>xpra/util/str_fn.py\<close>)\<close>

text \<open>
  The codecs of the standard library. \<open>latin1\<close> maps code points below 256 to bytes and
  back, and raises for any other code point. \<open>utf8\<close> writes one to four bytes for a
  code point and raises for a surrogate.
\<close>

definition encode_latin1 :: "pystr \<Rightarrow> error + pybytes" where
  "encode_latin1 s = (if \<forall>c \<in> set s. c < 256 then Inr (map of_nat s) else Inl UnicodeEncodeError)"

definition decode_latin1 :: "pybytes \<Rightarrow> pystr" where
  "decode_latin1 b = map unat b"

definition utf8_char :: "nat \<Rightarrow> error + pybytes" where
  "utf8_char c =
     (if c < 0x80 then Inr [of_nat c]
      else if c < 0x800 then Inr [of_nat (0xC0 + c div 64), of_nat (0x80 + c mod 64)]
      else if 0xD800 \<le> c \<and> c \<le> 0xDFFF then Inl UnicodeEncodeError
      else if c < 0x10000
      then Inr [of_nat (0xE0 + c div 4096), of_nat (0x80 + c div 64 mod 64), of_nat (0x80 + c mod 64)]
      else if c < 0x110000
      then Inr [of_nat (0xF0 + c div 262144), of_nat (0x80 + c div 4096 mod 64),
                of_nat (0x80 + c div 64 mod 64), of_nat (0x80 + c mod 64)]
      else Inl UnicodeEncodeError)"

definition encode_utf8 :: "pystr \<Rightarrow> error + pybytes" where
  "encode_utf8 s = pack_all (map utf8_char s)"

text \<open>
  \<open>str(x)\<close> is \<open>x\<close> itself for a \<open>str\<close>; for any other object it is what the builtin
  gives, a parameter here, as is \<open>repr\<close>.
\<close>

definition py_str :: "(pyobj \<Rightarrow> pystr) \<Rightarrow> pyobj \<Rightarrow> pystr" where
  "py_str builtin_str x = (case x of PyStr s \<Rightarrow> s | _ \<Rightarrow> builtin_str x)"

text \<open>
  \<open>strtobytes\<close>: bytes are returned as they are, anything else is encoded as \<open>latin1\<close>,
  and as \<open>utf8\<close> when that raises \<open>UnicodeEncodeError\<close>.
\<close>

definition strtobytes :: "(pyobj \<Rightarrow> pystr) \<Rightarrow> pyobj \<Rightarrow> error + pybytes" where
  "strtobytes builtin_str x =
     (case x of
        PyBytes b \<Rightarrow> Inr b
      | _ \<Rightarrow>
          (case encode_latin1 (py_str builtin_str x) of
             Inr b \<Rightarrow> Inr b
           | Inl _ \<Rightarrow> encode_utf8 (py_str builtin_str x)))"

definition bytestostr :: "(pyobj \<Rightarrow> pystr) \<Rightarrow> pyobj \<Rightarrow> pystr" where
  "bytestostr builtin_str x =
     (case x of
        PyBytes b \<Rightarrow> decode_latin1 b
      | PyByteArray b \<Rightarrow> decode_latin1 b
      | _ \<Rightarrow> py_str builtin_str x)"

text \<open>
  \<open>memoryview_to_bytes\<close>: the contents of a bytes, memoryview or bytearray buffer as
  bytes, and \<open>strtobytes\<close> of anything else.
\<close>

definition memoryview_to_bytes :: "(pyobj \<Rightarrow> pystr) \<Rightarrow> pyobj \<Rightarrow> error + pybytes" where
  "memoryview_to_bytes builtin_str v =
     (case v of
        PyBytes b \<Rightarrow> Inr b
      | PyMemoryview b \<Rightarrow> Inr b
      | PyByteArray b \<Rightarrow> Inr b
      | _ \<Rightarrow> strtobytes builtin_str v)"

text \<open>
  \<open>nonl\<close> on a \<open>str\<close>: the empty string is falsy and gives \<open>""\<close>; otherwise the line
  feeds (10) become backslash (92) and \<open>n\<close> (110), then the carriage returns (13) become
  backslash and \<open>r\<close> (114).
\<close>

definition nonl :: "pystr \<Rightarrow> pystr" where
  "nonl x = (if x = [] then [] else py_replace (py_replace x [10] [92, 110]) [13] [92, 114])"

text \<open>
  \<open>repr_ellipsized\<close>. The separator \<open>" .. "\<close> is the code points 32, 46, 46, 32. The
  branch of a \<open>str\<close> and the one of bytes share the slicing expression; a memoryview is
  turned into bytes first; any other object goes through \<open>repr\<close> and the branch of a
  \<open>str\<close>.
\<close>

definition ellipsized :: "pystr \<Rightarrow> int \<Rightarrow> pystr" where
  "ellipsized s limit =
     nonl (py_slice_to s (limit div 2 - 2) @ [32, 46, 46, 32] @ py_slice_from s (2 - limit div 2))"

definition repr_ellipsized :: "(pyobj \<Rightarrow> pystr) \<Rightarrow> pyobj \<Rightarrow> int \<Rightarrow> pystr" where
  "repr_ellipsized builtin_repr obj limit =
     (let of_str = (\<lambda>s. if int (length s) > limit \<and> limit > 6 then ellipsized s limit else nonl s);
          of_bytes = (\<lambda>b. let s = nonl (builtin_repr (PyBytes b))
                           in if int (length s) > limit \<and> limit > 6 then ellipsized s limit else s)
      in case obj of
           PyStr s \<Rightarrow> of_str s
         | PyMemoryview b \<Rightarrow> of_bytes b
         | PyBytes b \<Rightarrow> of_bytes b
         | _ \<Rightarrow> of_str (builtin_repr obj))"

text \<open>Escaping a string character by character, as a reader of the result expects it.\<close>

definition escape_newlines :: "pystr \<Rightarrow> pystr" where
  "escape_newlines s =
     concat (map (\<lambda>c. if c = 10 then [92, 110] else if c = 13 then [92, 114] else [c]) s)"

section \<open>\<open>struct.pack\<close> with network byte order\<close>

text \<open>
  \<open>struct.pack(b"!B", v)\<close>, \<open>"!H"\<close> and \<open>"!i"\<close>: an argument outside the range of the
  format raises \<open>struct.error\<close>; inside it, the value is written big-endian, the signed
  one in two's complement.
\<close>

definition pack_B :: "int \<Rightarrow> error + pybytes" where
  "pack_B v = (if 0 \<le> v \<and> v \<le> 255 then Inr [word_of_int v] else Inl StructError)"

definition pack_H :: "int \<Rightarrow> error + pybytes" where
  "pack_H v =
     (if 0 \<le> v \<and> v \<le> 65535
      then Inr [word_of_int (v div 256), word_of_int (v mod 256)]
      else Inl StructError)"

definition pack_i :: "int \<Rightarrow> error + pybytes" where
  "pack_i v =
     (if - 2147483648 \<le> v \<and> v \<le> 2147483647
      then let u = v mod 4294967296
           in Inr [word_of_int (u div 16777216), word_of_int (u div 65536 mod 256),
                   word_of_int (u div 256 mod 256), word_of_int (u mod 256)]
      else Inl StructError)"

section \<open>The legacy rect codec (\<open>xpra/server/rfb/rfb_encode.py\<close>)\<close>

text \<open>
  \<open>make_header\<close>: \<open>struct.pack(b"!BBH", 0, 0, 1)\<close> followed by
  \<open>struct.pack(b"!HHHHi", x, y, w, h, encoding)\<close>.
\<close>

definition make_header :: "int \<Rightarrow> int \<Rightarrow> int \<Rightarrow> int \<Rightarrow> int \<Rightarrow> error + pybytes" where
  "make_header encoding x y w h =
     (case pack_all [pack_B 0, pack_B 0, pack_H 1] of
        Inl e \<Rightarrow> Inl e
      | Inr fbupdate \<Rightarrow>
          (case pack_all [pack_H x, pack_H y, pack_H w, pack_H h, pack_i encoding] of
             Inl e \<Rightarrow> Inl e
           | Inr rect \<Rightarrow> Inr (fbupdate @ rect)))"

text \<open>Reading fields back out of a byte string, as the receiver of the frame does.\<close>

definition u16_at :: "pybytes \<Rightarrow> nat \<Rightarrow> int" where
  "u16_at bs i = 256 * uint (bs ! i) + uint (bs ! (i + 1))"

definition i32_at :: "pybytes \<Rightarrow> nat \<Rightarrow> int" where
  "i32_at bs i =
     sint (word_of_int (16777216 * uint (bs ! i) + 65536 * uint (bs ! (i + 1))
                        + 256 * uint (bs ! (i + 2)) + uint (bs ! (i + 3))) :: 32 word)"

text \<open>
  The frame header as the specification words it:
  \<open>[updateCount:uint16][x:uint16][y:uint16][w:uint16][h:uint16][encodingId:int32]\<close>.
\<close>

definition spec_frame_header :: "int \<Rightarrow> int \<Rightarrow> int \<Rightarrow> int \<Rightarrow> int \<Rightarrow> int \<Rightarrow> error + pybytes" where
  "spec_frame_header update_count encoding x y w h =
     pack_all [pack_H update_count, pack_H x, pack_H y, pack_H w, pack_H h, pack_i encoding]"

text \<open>
  The collaborators of the encoders are not part of the codec and are taken as parameters:
  the window's \<open>get_image\<close> (no image is \<open>None\<close>) and \<open>acknowledge_changes\<close>, the image's
  \<open>restride\<close>, the external JPEG encoder (\<open>encode("jpeg", img, 90, 100, False, False, None)[1].data\<close>,
  which may raise), the two encoding ids of \<open>RFBEncoding\<close> and the engine's \<open>PACKET_JOIN_SIZE\<close>.
  The window is a state \<open>'w\<close> that both window methods may change.
\<close>

record image =
  rowstride :: int
  pixels :: pybytes

record 'w rfb_env =
  get_image :: "'w \<Rightarrow> int \<Rightarrow> int \<Rightarrow> int \<Rightarrow> int \<Rightarrow> image option \<times> 'w"
  acknowledge_changes :: "'w \<Rightarrow> 'w"
  restride :: "image \<Rightarrow> int \<Rightarrow> image"
  jpeg_encode :: "image \<Rightarrow> error + pybytes"
  RAW :: int
  TIGHT :: int
  PACKET_JOIN_SIZE :: int

text \<open>
  \<open>raw_encode\<close> returns the window after the two calls and either an error, \<open>None\<close> or
  the list of chunks. The pixel data are a bytes-like buffer, of which
  \<open>memoryview_to_bytes\<close> gives the contents unchanged, so that on byte lists the joined
  chunk is \<open>header @ data\<close>.
\<close>

definition raw_encode ::
  "'w rfb_env \<Rightarrow> 'w \<Rightarrow> int \<Rightarrow> int \<Rightarrow> int \<Rightarrow> int \<Rightarrow> 'w \<times> (error + pybytes list option)" where
  "raw_encode env window x y w h =
     (let (img, window1) = get_image env window x y w h;
          window2 = acknowledge_changes env window1
      in case img of
           None \<Rightarrow> (window2, Inr None)
         | Some img0 \<Rightarrow>
             (let img1 = (if rowstride img0 \<noteq> w * 4 then restride env img0 (w * 4) else img0);
                  pixels = image.pixels img1
              in if \<not> int (length pixels) \<ge> 4 * w * h then (window2, Inl AssertionError)
                 else
                   (let data = py_slice_to pixels (4 * w * h)
                    in case make_header (RAW env) x y w h of
                         Inl e \<Rightarrow> (window2, Inl e)
                       | Inr header \<Rightarrow>
                           if int (length data) \<le> PACKET_JOIN_SIZE env
                           then (window2, Inr (Some [header @ data]))
                           else (window2, Inr (Some [header, data])))))"

text \<open>
  The length header of the compressed path (lines 46 to 53 of \<open>tight_encode\<close>), with
  \<open>&\<close> and \<open>>>\<close> on Python integers.
\<close>

definition tight_length_header :: "int \<Rightarrow> error + pybytes" where
  "tight_length_header len =
     (if len < 128 then pack_all [pack_B len]
      else if len < 16383
      then pack_all [pack_B (0x80 + (len AND 0x7F)), pack_B (drop_bit 7 len)]
      else if \<not> len < 4194303 then Inl AssertionError
      else pack_all [pack_B (0x80 + (len AND 0x7F)),
                     pack_B (0x80 + (drop_bit 7 len AND 0x7F)),
                     pack_B (drop_bit 14 len)])"

definition tight_encode ::
  "'w rfb_env \<Rightarrow> 'w \<Rightarrow> int \<Rightarrow> int \<Rightarrow> int \<Rightarrow> int \<Rightarrow> 'w \<times> (error + pybytes list option)" where
  "tight_encode env window x y w h =
     (let (img, window1) = get_image env window x y w h;
          window2 = acknowledge_changes env window1
      in case img of
           None \<Rightarrow> (window2, Inr None)
         | Some img0 \<Rightarrow>
             (case jpeg_encode env img0 of
                Inl e \<Rightarrow> (window2, Inl e)
              | Inr data \<Rightarrow>
                  (case pack_all [make_header (TIGHT env) x y w h, pack_B (0x80 + 0x1F)] of
                     Inl e \<Rightarrow> (window2, Inl e)
                   | Inr header0 \<Rightarrow>
                       (case tight_length_header (int (length data)) of
                          Inl e \<Rightarrow> (window2, Inl e)
                        | Inr length_header \<Rightarrow>
                            (let header = header0 @ length_header
                             in if int (length data) \<le> PACKET_JOIN_SIZE env
                                then (window2, Inr (Some [header @ data]))
                                else (window2, Inr (Some [header, data])))))))"

text \<open>
  A window for the examples: it has an image for every rectangle that is not empty, whose
  row stride is \<open>pad\<close> bytes wider than the rectangle, it counts the acknowledgements,
  and its JPEG encoder returns the given bytes.
\<close>

definition example_env :: "int \<Rightarrow> int \<Rightarrow> pybytes \<Rightarrow> nat rfb_env" where
  "example_env pad join_size jpeg =
     \<lparr>get_image = (\<lambda>win x y w h.
        (if w \<le> 0 \<or> h \<le> 0 then None
         else Some \<lparr>rowstride = 4 * w + pad,
                     pixels = replicate (nat ((4 * w + pad) * h)) 255\<rparr>, win)),
      acknowledge_changes = Suc,
      restride = (\<lambda>img r. img\<lparr>rowstride := r\<rparr>),
      jpeg_encode = (\<lambda>img. Inr jpeg),
      RAW = 0,
      TIGHT = 7,
      PACKET_JOIN_SIZE = join_size\<rparr>"

section \<open>The bandwidth-limit handler of the Network Health Monitor\<close>

text \<open>
  Modelled from the spec: the handler of the \<open>bandwidth-limit\<close> packet
  (\<open>xpra/server/mixins/networkstate.py\<close> and \<open>xpra/server/source/networkstate.py\<close>, which
  the test \<open>networkstate_test.py\<close> drives, are not among the sources). The specification
  says: the handler validates that the requested value is a non-negative integer; it
  rejects any non-integer or negative value with a TypeError-class validation error and
  does not alter state; the effective limit is \<open>min(requested, processWideCap)\<close>; the
  process-wide cap defaults to unlimited (\<open>None\<close> here); a validation error rejects that
  single packet and the session continues.
\<close>

record bandwidth_state =
  requested_limit :: int
  effective_limit :: int
  bytes_sent :: nat
  session_active :: bool

definition process_bandwidth_limit ::
  "int option \<Rightarrow> bandwidth_state \<Rightarrow> pyobj \<Rightarrow> error + bandwidth_state" where
  "process_bandwidth_limit cap st v =
     (case v of
        PyInt r \<Rightarrow>
          if 0 \<le> r
          then Inr (st\<lparr>requested_limit := r,
                      effective_limit := (case cap of None \<Rightarrow> r | Some c \<Rightarrow> min r c)\<rparr>)
          else Inl TypeError
      | _ \<Rightarrow> Inl TypeError)"

text \<open>
  Modelled from the spec: the delivery of one \<open>bandwidth-limit\<close> packet to the session. An
  error of the handler is reported and leaves the session as it was.
\<close>

definition handle_bandwidth_limit ::
  "int option \<Rightarrow> bandwidth_state \<Rightarrow> pyobj \<Rightarrow> bandwidth_state \<times> error option" where
  "handle_bandwidth_limit cap st v =
     (case process_bandwidth_limit cap st v of
        Inl e \<Rightarrow> (st, Some e)
      | Inr st' \<Rightarrow> (st', None))"

text \<open>The payloads that the specification accepts.\<close>

definition is_non_negative_integer :: "pyobj \<Rightarrow> bool" where
  "is_non_negative_integer v = (case v of PyInt r \<Rightarrow> 0 \<le> r | _ \<Rightarrow> False)"

section \<open>The callee role of the Subprocess Bridge\<close>

text \<open>
  Modelled from the spec: the packet handler of the callee (\<open>xpra/net/subprocess_wrapper.py\<close>,
  which the test \<open>subprocess_wrapper_test.py\<close> drives, is not among the sources). The
  specification says: the callee is constructed with a name whitelist; on receiving a
  packet whose name matches a whitelisted method, it invokes that method on the wrapped
  object with the packet's arguments; any packet whose name is not in the whitelist is
  dropped and logged, never invoked, and the whitelist is checked before any dispatch.
  How a name matches is fixed by the test \<open>test_loopback_callee\<close>: the whitelist holds
  \<open>test_signal\<close>, the packet that travels over the loopback connection is named
  \<open>test-signal\<close>, and the test expects the method \<open>test_signal\<close> of the wrapped object to be
  called once with the packet's argument. So the callee turns the packet's name into a
  method name by replacing every hyphen with an underscore, and it is the method name
  that is looked up in the whitelist and invoked. The wrapped object is represented by
  the list of the calls made on it, each the method name with the arguments.
\<close>

type_synonym packet = "string \<times> pyobj list"

record callee =
  method_whitelist :: "string list"
  invoked :: "packet list"
  dropped_log :: "string list"

definition method_name :: "string \<Rightarrow> string" where
  "method_name command = py_replace command ''-'' ''_''"

definition callee_process_packet :: "callee \<Rightarrow> packet \<Rightarrow> callee" where
  "callee_process_packet c p =
     (let attr = method_name (fst p)
      in if attr \<in> set (method_whitelist c)
         then c\<lparr>invoked := invoked c @ [(attr, snd p)]\<rparr>
         else c\<lparr>dropped_log := dropped_log c @ [attr]\<rparr>)"

text \<open>Modelled from the spec: the session delivers the received packets one after the other.\<close>

fun callee_run :: "callee \<Rightarrow> packet list \<Rightarrow> callee" where
  "callee_run c [] = c"
| "callee_run c (p # ps) = callee_run (callee_process_packet c p) ps"

section \<open>Properties of the legacy rect codec\<close>

subsection \<open>Bytes written by \<open>struct.pack\<close> read back as the value\<close>

lemma u16_roundtrip:
  "0 \<le> v \<Longrightarrow> v \<le> 65535 \<Longrightarrow>
   256 * uint (word_of_int (v div 256) :: byte) + uint (word_of_int (v mod 256) :: byte) = v"
  by (simp add: uint_word_of_int take_bit_eq_mod)

lemma be32_digits:
  fixes u :: int
  shows "16777216 * (u div 16777216) + 65536 * (u div 65536 mod 256)
      + 256 * (u div 256 mod 256) + u mod 256 = u"
proof -
  have s1: "u mod 65536 = 256 * (u div 256 mod 256) + u mod 256"
    using zmod_zmult2_eq[of 256 u 256] by simp
  have s2: "u mod 16777216 = 65536 * (u div 65536 mod 256) + u mod 65536"
    using zmod_zmult2_eq[of 256 u 65536] by simp
  have s3: "u = 16777216 * (u div 16777216) + u mod 16777216"
    by simp
  show ?thesis using s1 s2 s3 by linarith
qed

lemma uint_byte_mod: "uint (word_of_int (k mod 256) :: byte) = k mod 256"
  by (simp add: uint_word_of_int)

lemma be32_bytes:
  fixes u :: int
  assumes u: "0 \<le> u" "u < 4294967296"
  shows "16777216 * uint (word_of_int (u div 16777216) :: byte)
      + 65536 * uint (word_of_int (u div 65536 mod 256) :: byte)
      + 256 * uint (word_of_int (u div 256 mod 256) :: byte)
      + uint (word_of_int (u mod 256) :: byte) = u"
proof -
  have top: "u div 16777216 mod 256 = u div 16777216" using u by simp
  have b3: "uint (word_of_int (u div 16777216) :: byte) = u div 16777216"
    using uint_byte_mod[of "u div 16777216"] by (simp only: top)
  show ?thesis unfolding b3 uint_byte_mod by (rule be32_digits)
qed

lemma sint_mod_2p32:
  assumes "- 2147483648 \<le> e" "e \<le> 2147483647"
  shows "sint (word_of_int (e mod 4294967296) :: 32 word) = e"
proof -
  have "(word_of_int (e mod 4294967296) :: 32 word) = word_of_int e"
    by (simp add: word_of_int_eq_iff take_bit_eq_mod)
  moreover have "sint (word_of_int e :: 32 word) = e"
    using assms by (simp add: sint_sbintrunc' signed_take_bit_int_eq_self)
  ultimately show ?thesis by simp
qed

lemma i32_roundtrip:
  assumes "- 2147483648 \<le> e" "e \<le> 2147483647"
  shows "sint (word_of_int (16777216 * uint (word_of_int (e mod 4294967296 div 16777216) :: byte)
      + 65536 * uint (word_of_int (e mod 4294967296 div 65536 mod 256) :: byte)
      + 256 * uint (word_of_int (e mod 4294967296 div 256 mod 256) :: byte)
      + uint (word_of_int (e mod 4294967296 mod 256) :: byte)) :: 32 word) = e"
proof -
  have "0 \<le> e mod 4294967296" "e mod 4294967296 < 4294967296" by simp_all
  then have "16777216 * uint (word_of_int (e mod 4294967296 div 16777216) :: byte)
      + 65536 * uint (word_of_int (e mod 4294967296 div 65536 mod 256) :: byte)
      + 256 * uint (word_of_int (e mod 4294967296 div 256 mod 256) :: byte)
      + uint (word_of_int (e mod 4294967296 mod 256) :: byte) = e mod 4294967296"
    by (rule be32_bytes)
  then show ?thesis using sint_mod_2p32[OF assms] by (simp only:)
qed

lemma make_header_eq:
  assumes "0 \<le> x" "x \<le> 65535" "0 \<le> y" "y \<le> 65535" "0 \<le> w" "w \<le> 65535"
    and "0 \<le> h" "h \<le> 65535" "- 2147483648 \<le> e" "e \<le> 2147483647"
  shows "make_header e x y w h =
     Inr [0, 0, 0, 1,
          word_of_int (x div 256), word_of_int (x mod 256),
          word_of_int (y div 256), word_of_int (y mod 256),
          word_of_int (w div 256), word_of_int (w mod 256),
          word_of_int (h div 256), word_of_int (h mod 256),
          word_of_int (e mod 4294967296 div 16777216),
          word_of_int (e mod 4294967296 div 65536 mod 256),
          word_of_int (e mod 4294967296 div 256 mod 256),
          word_of_int (e mod 4294967296 mod 256)]"
  using assms by (simp add: make_header_def pack_B_def pack_H_def pack_i_def Let_def)

subsection \<open>The frame header\<close>

text \<open>
  Claim C5, as the specification words it, says that the header starts with the update
  count. The header that \<open>make_header\<close> writes for the rectangle (1, 2, 3, 4) and
  encoding 0 has sixteen bytes, the fourteen bytes of the specified layout come after a
  message-type byte 0 and a padding byte 0.
\<close>

theorem make_header_counterexample:
  "make_header 0 1 2 3 4 = Inr [0, 0, 0, 1, 0, 1, 0, 2, 0, 3, 0, 4, 0, 0, 0, 0]
   \<and> spec_frame_header 1 0 1 2 3 4 = Inr [0, 1, 0, 1, 0, 2, 0, 3, 0, 4, 0, 0, 0, 0]
   \<and> make_header 0 1 2 3 4 \<noteq> spec_frame_header 1 0 1 2 3 4"
  by (simp add: make_header_def spec_frame_header_def pack_B_def pack_H_def pack_i_def)

text \<open>
  Claim C5, amended: for a rectangle whose fields fit an unsigned 16-bit integer and an
  encoding id that fits a signed 32-bit integer, the header is exactly sixteen bytes: a
  message-type byte 0, a padding byte 0, the update count 1 as an unsigned 16-bit
  big-endian field, then x, y, w and h as unsigned 16-bit big-endian fields, then the
  encoding id as a signed 32-bit big-endian integer; the bytes after the first two are
  the layout of the specification with update count 1.
\<close>

theorem make_header_layout:
  assumes "0 \<le> x" "x \<le> 65535" "0 \<le> y" "y \<le> 65535" "0 \<le> w" "w \<le> 65535"
    and "0 \<le> h" "h \<le> 65535" "- 2147483648 \<le> e" "e \<le> 2147483647"
  shows "\<exists>hdr. make_header e x y w h = Inr hdr \<and> length hdr = 16
           \<and> hdr ! 0 = 0 \<and> hdr ! 1 = 0 \<and> u16_at hdr 2 = 1
           \<and> u16_at hdr 4 = x \<and> u16_at hdr 6 = y \<and> u16_at hdr 8 = w \<and> u16_at hdr 10 = h
           \<and> i32_at hdr 12 = e
           \<and> spec_frame_header 1 e x y w h = Inr (drop 2 hdr)"
proof -
  define hdr :: pybytes where "hdr = [0, 0, 0, 1,
          word_of_int (x div 256), word_of_int (x mod 256),
          word_of_int (y div 256), word_of_int (y mod 256),
          word_of_int (w div 256), word_of_int (w mod 256),
          word_of_int (h div 256), word_of_int (h mod 256),
          word_of_int (e mod 4294967296 div 16777216),
          word_of_int (e mod 4294967296 div 65536 mod 256),
          word_of_int (e mod 4294967296 div 256 mod 256),
          word_of_int (e mod 4294967296 mod 256)]"
  have eq: "make_header e x y w h = Inr hdr"
    unfolding hdr_def using assms by (rule make_header_eq)
  have len: "length hdr = 16" by (simp add: hdr_def)
  have b0: "hdr ! 0 = 0" "hdr ! 1 = 0" by (simp_all add: hdr_def)
  have cnt: "u16_at hdr 2 = 1" by (simp add: u16_at_def hdr_def)
  have fx: "u16_at hdr 4 = x"
    using u16_roundtrip[of x] assms(1,2) by (simp add: u16_at_def hdr_def)
  have fy: "u16_at hdr 6 = y"
    using u16_roundtrip[of y] assms(3,4) by (simp add: u16_at_def hdr_def)
  have fw: "u16_at hdr 8 = w"
    using u16_roundtrip[of w] assms(5,6) by (simp add: u16_at_def hdr_def)
  have fh: "u16_at hdr 10 = h"
    using u16_roundtrip[of h] assms(7,8) by (simp add: u16_at_def hdr_def)
  have "i32_at hdr 12 =
      sint (word_of_int (16777216 * uint (word_of_int (e mod 4294967296 div 16777216) :: byte)
      + 65536 * uint (word_of_int (e mod 4294967296 div 65536 mod 256) :: byte)
      + 256 * uint (word_of_int (e mod 4294967296 div 256 mod 256) :: byte)
      + uint (word_of_int (e mod 4294967296 mod 256) :: byte)) :: 32 word)"
    by (simp add: i32_at_def hdr_def)
  then have fe: "i32_at hdr 12 = e"
    using i32_roundtrip[of e] assms(9,10) by (simp only:)
  have sp: "spec_frame_header 1 e x y w h = Inr (drop 2 hdr)"
    using assms by (simp add: spec_frame_header_def pack_H_def pack_i_def Let_def hdr_def)
  show ?thesis using eq len b0 cnt fx fy fw fh fe sp by blast
qed

theorem make_header_layout_witness:
  "\<exists>hdr. make_header (-239) 1 2 640 480 = Inr hdr \<and> length hdr = 16
           \<and> hdr ! 0 = 0 \<and> hdr ! 1 = 0 \<and> u16_at hdr 2 = 1
           \<and> u16_at hdr 4 = 1 \<and> u16_at hdr 6 = 2 \<and> u16_at hdr 8 = 640 \<and> u16_at hdr 10 = 480
           \<and> i32_at hdr 12 = -239
           \<and> spec_frame_header 1 (-239) 1 2 640 480 = Inr (drop 2 hdr)"
  by (rule make_header_layout) simp_all

subsection \<open>Bit operations of the length prefix\<close>

lemma and_127_nat: "(L::nat) AND 127 = L mod 128"
proof -
  have "L AND mask 7 = take_bit 7 L" by (simp only: take_bit_eq_mask)
  then show ?thesis by (simp add: mask_numeral take_bit_eq_mod)
qed

lemma and_127_int: "(l::int) AND 127 = l mod 128"
proof -
  have "l AND mask 7 = take_bit 7 l" by (simp only: take_bit_eq_mask)
  then show ?thesis by (simp add: mask_numeral take_bit_eq_mod)
qed

lemma or_128_nat: assumes "(m::nat) < 128" shows "128 OR m = 128 + m"
proof -
  have m7: "\<not> bit m 7" using assms by (simp add: bit_iff_odd)
  have "\<not> bit (2 ^ 7 :: nat) n \<or> \<not> bit m n" for n
    using m7 unfolding bit_exp_iff by auto
  then have "2 ^ 7 + m = 2 ^ 7 OR m" by (rule disjunctive_add)
  then show ?thesis by simp
qed

lemma pack_B_unat: "0 \<le> v \<Longrightarrow> v \<le> 255 \<Longrightarrow> \<exists>b. pack_B v = Inr [b] \<and> unat b = nat v"
  by (simp add: pack_B_def unsigned_of_int take_bit_int_eq_self)

lemma tight_length_header_1:
  assumes "L < 128"
  shows "\<exists>b0. tight_length_header (int L) = Inr [b0] \<and> unat b0 = L"
  using assms pack_B_unat[of "int L"] by (auto simp: tight_length_header_def)

lemma tight_length_header_2:
  assumes "128 \<le> L" "L < 16383"
  shows "\<exists>b0 b1. tight_length_header (int L) = Inr [b0, b1]
     \<and> unat b0 = 128 OR (L AND 127) \<and> unat b1 = drop_bit 7 L"
proof -
  have m: "L mod 128 < 128" by simp
  have d: "L div 128 \<le> 255" using assms by simp
  have i1: "128 + (int L AND 127) = int (128 + L mod 128)"
    by (simp add: and_127_int zmod_int)
  have i2: "drop_bit 7 (int L) = int (L div 128)"
    by (simp add: drop_bit_eq_div zdiv_int)
  obtain b0 where b0: "pack_B (int (128 + L mod 128)) = Inr [b0]" "unat b0 = 128 + L mod 128"
    using pack_B_unat[of "int (128 + L mod 128)"] m by auto
  obtain b1 where b1: "pack_B (int (L div 128)) = Inr [b1]" "unat b1 = L div 128"
    using pack_B_unat[of "int (L div 128)"] d by auto
  have "tight_length_header (int L) = Inr [b0, b1]"
    using assms b0 b1 unfolding tight_length_header_def i1 i2 by simp
  moreover have "unat b0 = 128 OR (L AND 127)"
    using b0 or_128_nat[OF m] by (simp add: and_127_nat)
  moreover have "unat b1 = drop_bit 7 L" using b1 by (simp add: drop_bit_eq_div)
  ultimately show ?thesis by blast
qed

lemma tight_length_header_3:
  assumes "16383 \<le> L" "L \<le> 4194302"
  shows "\<exists>b0 b1 b2. tight_length_header (int L) = Inr [b0, b1, b2]
     \<and> unat b0 = 128 OR (L AND 127) \<and> unat b1 = 128 OR (drop_bit 7 L AND 127)
     \<and> unat b2 = drop_bit 14 L"
proof -
  have m: "L mod 128 < 128" by simp
  have m1: "L div 128 mod 128 < 128" by simp
  have d: "L div 16384 \<le> 255" using assms by simp
  have i1: "128 + (int L AND 127) = int (128 + L mod 128)"
    by (simp add: and_127_int zmod_int)
  have i2: "128 + (drop_bit 7 (int L) AND 127) = int (128 + L div 128 mod 128)"
    by (simp add: and_127_int drop_bit_eq_div zmod_int zdiv_int)
  have i3: "drop_bit 14 (int L) = int (L div 16384)"
    by (simp add: drop_bit_eq_div zdiv_int)
  obtain b0 where b0: "pack_B (int (128 + L mod 128)) = Inr [b0]" "unat b0 = 128 + L mod 128"
    using pack_B_unat[of "int (128 + L mod 128)"] m by auto
  obtain b1 where b1: "pack_B (int (128 + L div 128 mod 128)) = Inr [b1]"
      "unat b1 = 128 + L div 128 mod 128"
    using pack_B_unat[of "int (128 + L div 128 mod 128)"] m1 by auto
  obtain b2 where b2: "pack_B (int (L div 16384)) = Inr [b2]" "unat b2 = L div 16384"
    using pack_B_unat[of "int (L div 16384)"] d by auto
  have "tight_length_header (int L) = Inr [b0, b1, b2]"
    using assms b0 b1 b2 unfolding tight_length_header_def i1 i2 i3 by simp
  moreover have "unat b0 = 128 OR (L AND 127)"
    using b0 or_128_nat[OF m] by (simp add: and_127_nat)
  moreover have "unat b1 = 128 OR (drop_bit 7 L AND 127)"
    using b1 or_128_nat[OF m1] by (simp add: and_127_nat drop_bit_eq_div)
  moreover have "unat b2 = drop_bit 14 L" using b2 by (simp add: drop_bit_eq_div)
  ultimately show ?thesis by blast
qed

lemma tight_length_header_4:
  assumes "4194302 < L"
  shows "tight_length_header (int L) = Inl AssertionError"
  using assms by (simp add: tight_length_header_def)

lemma tight_encode_chunks:
  assumes img: "get_image env window x y w h = (Some img, window1)"
    and enc: "jpeg_encode env img = Inr data"
    and hdr: "make_header (TIGHT env) x y w h = Inr hdr"
  shows "snd (tight_encode env window x y w h) =
     (case tight_length_header (int (length data)) of
        Inl e \<Rightarrow> Inl e
      | Inr lh \<Rightarrow>
          Inr (Some (if int (length data) \<le> PACKET_JOIN_SIZE env
                     then [hdr @ [0x9F] @ lh @ data] else [hdr @ [0x9F] @ lh, data])))"
  using assms by (simp add: tight_encode_def pack_B_def split: sum.splits)

subsection \<open>The compressed path\<close>

text \<open>
  Claim C6: when the window has an image, the JPEG encoder returns \<open>data\<close> and the
  rectangle fits the header, the bytes that \<open>tight_encode\<close> returns are the header, the
  byte 0x9F, the length prefix and the data, where the prefix is one byte L for
  L < 128, the two bytes 0x80 | (L & 0x7F), L >> 7 for 128 \<le> L < 16383, the three bytes
  0x80 | (L & 0x7F), 0x80 | ((L >> 7) & 0x7F), L >> 14 for 16383 \<le> L \<le> 4194302, and the
  assertion fails for any longer payload. The prefix bytes are read as unsigned numbers,
  so that nothing is lost in them.
\<close>

theorem tight_encode_length_prefix:
  assumes img: "get_image env window x y w h = (Some img, window1)"
    and enc: "jpeg_encode env img = Inr data"
    and hdr: "make_header (TIGHT env) x y w h = Inr hdr"
  shows "(length data < 128 \<longrightarrow>
            (\<exists>chunks b0. snd (tight_encode env window x y w h) = Inr (Some chunks)
               \<and> concat chunks = hdr @ [0x9F] @ [b0] @ data
               \<and> unat b0 = length data))
       \<and> (128 \<le> length data \<and> length data < 16383 \<longrightarrow>
            (\<exists>chunks b0 b1. snd (tight_encode env window x y w h) = Inr (Some chunks)
               \<and> concat chunks = hdr @ [0x9F] @ [b0, b1] @ data
               \<and> unat b0 = 0x80 OR (length data AND 0x7F)
               \<and> unat b1 = drop_bit 7 (length data)))
       \<and> (16383 \<le> length data \<and> length data \<le> 4194302 \<longrightarrow>
            (\<exists>chunks b0 b1 b2. snd (tight_encode env window x y w h) = Inr (Some chunks)
               \<and> concat chunks = hdr @ [0x9F] @ [b0, b1, b2] @ data
               \<and> unat b0 = 0x80 OR (length data AND 0x7F)
               \<and> unat b1 = 0x80 OR (drop_bit 7 (length data) AND 0x7F)
               \<and> unat b2 = drop_bit 14 (length data)))
       \<and> (4194302 < length data \<longrightarrow>
            snd (tight_encode env window x y w h) = Inl AssertionError)"
proof -
  note unf = tight_encode_chunks[OF img enc hdr]
  have c1: "length data < 128 \<longrightarrow>
            (\<exists>chunks b0. snd (tight_encode env window x y w h) = Inr (Some chunks)
               \<and> concat chunks = hdr @ [0x9F] @ [b0] @ data
               \<and> unat b0 = length data)"
  proof
    assume "length data < 128"
    then obtain b0 where "tight_length_header (int (length data)) = Inr [b0]"
      "unat b0 = length data"
      using tight_length_header_1 by blast
    then show "\<exists>chunks b0. snd (tight_encode env window x y w h) = Inr (Some chunks)
               \<and> concat chunks = hdr @ [0x9F] @ [b0] @ data
               \<and> unat b0 = length data"
      using unf by (cases "int (length data) \<le> PACKET_JOIN_SIZE env") auto
  qed
  have c2: "128 \<le> length data \<and> length data < 16383 \<longrightarrow>
            (\<exists>chunks b0 b1. snd (tight_encode env window x y w h) = Inr (Some chunks)
               \<and> concat chunks = hdr @ [0x9F] @ [b0, b1] @ data
               \<and> unat b0 = 0x80 OR (length data AND 0x7F)
               \<and> unat b1 = drop_bit 7 (length data))"
  proof
    assume "128 \<le> length data \<and> length data < 16383"
    then obtain b0 b1 where "tight_length_header (int (length data)) = Inr [b0, b1]"
      "unat b0 = 128 OR (length data AND 127)" "unat b1 = drop_bit 7 (length data)"
      using tight_length_header_2 by blast
    then show "\<exists>chunks b0 b1. snd (tight_encode env window x y w h) = Inr (Some chunks)
               \<and> concat chunks = hdr @ [0x9F] @ [b0, b1] @ data
               \<and> unat b0 = 0x80 OR (length data AND 0x7F)
               \<and> unat b1 = drop_bit 7 (length data)"
      using unf by (cases "int (length data) \<le> PACKET_JOIN_SIZE env") auto
  qed
  have c3: "16383 \<le> length data \<and> length data \<le> 4194302 \<longrightarrow>
            (\<exists>chunks b0 b1 b2. snd (tight_encode env window x y w h) = Inr (Some chunks)
               \<and> concat chunks = hdr @ [0x9F] @ [b0, b1, b2] @ data
               \<and> unat b0 = 0x80 OR (length data AND 0x7F)
               \<and> unat b1 = 0x80 OR (drop_bit 7 (length data) AND 0x7F)
               \<and> unat b2 = drop_bit 14 (length data))"
  proof
    assume "16383 \<le> length data \<and> length data \<le> 4194302"
    then obtain b0 b1 b2 where "tight_length_header (int (length data)) = Inr [b0, b1, b2]"
      "unat b0 = 128 OR (length data AND 127)"
      "unat b1 = 128 OR (drop_bit 7 (length data) AND 127)"
      "unat b2 = drop_bit 14 (length data)"
      using tight_length_header_3 by blast
    then show "\<exists>chunks b0 b1 b2. snd (tight_encode env window x y w h) = Inr (Some chunks)
               \<and> concat chunks = hdr @ [0x9F] @ [b0, b1, b2] @ data
               \<and> unat b0 = 0x80 OR (length data AND 0x7F)
               \<and> unat b1 = 0x80 OR (drop_bit 7 (length data) AND 0x7F)
               \<and> unat b2 = drop_bit 14 (length data)"
      using unf by (cases "int (length data) \<le> PACKET_JOIN_SIZE env") auto
  qed
  have c4: "4194302 < length data \<longrightarrow>
            snd (tight_encode env window x y w h) = Inl AssertionError"
    using unf tight_length_header_4[of "length data"] by simp
  show ?thesis using c1 c2 c3 c4 by (intro conjI)
qed

theorem tight_encode_length_prefix_witness:
  "(\<exists>chunks b0. snd (tight_encode (example_env 4 100 (replicate 5 1)) 0 1 2 3 4) = Inr (Some chunks)
      \<and> concat chunks = [0, 0, 0, 1, 0, 1, 0, 2, 0, 3, 0, 4, 0, 0, 0, 7] @ [0x9F] @ [b0] @ replicate 5 1
      \<and> unat b0 = 5)
   \<and> (\<exists>chunks b0 b1.
        snd (tight_encode (example_env 4 100 (replicate 200 1)) 0 1 2 3 4) = Inr (Some chunks)
      \<and> concat chunks
          = [0, 0, 0, 1, 0, 1, 0, 2, 0, 3, 0, 4, 0, 0, 0, 7] @ [0x9F] @ [b0, b1] @ replicate 200 1
      \<and> unat b0 = 200 \<and> unat b1 = 1)
   \<and> (\<exists>chunks b0 b1 b2.
        snd (tight_encode (example_env 4 100 (replicate 16383 1)) 0 1 2 3 4) = Inr (Some chunks)
      \<and> concat chunks
          = [0, 0, 0, 1, 0, 1, 0, 2, 0, 3, 0, 4, 0, 0, 0, 7] @ [0x9F] @ [b0, b1, b2]
            @ replicate 16383 1
      \<and> unat b0 = 255 \<and> unat b1 = 255 \<and> unat b2 = 0)
   \<and> snd (tight_encode (example_env 4 100 (replicate 4194303 1)) 0 1 2 3 4) = Inl AssertionError"
proof -
  have g: "get_image (example_env 4 100 d) 0 1 2 3 4
      = (Some \<lparr>rowstride = 16, pixels = replicate 64 255\<rparr>, 0)" for d
    by (simp add: example_env_def)
  have j: "jpeg_encode (example_env 4 100 d) \<lparr>rowstride = 16, pixels = replicate 64 255\<rparr> = Inr d"
    for d by (simp add: example_env_def)
  have h: "make_header (TIGHT (example_env 4 100 d)) 1 2 3 4
      = Inr [0, 0, 0, 1, 0, 1, 0, 2, 0, 3, 0, 4, 0, 0, 0, 7]" for d
    by (simp add: example_env_def make_header_def pack_B_def pack_H_def pack_i_def)
  note T = tight_encode_length_prefix[OF g j h]
  have 1: "\<exists>chunks b0. snd (tight_encode (example_env 4 100 (replicate 5 1)) 0 1 2 3 4) = Inr (Some chunks)
      \<and> concat chunks = [0, 0, 0, 1, 0, 1, 0, 2, 0, 3, 0, 4, 0, 0, 0, 7] @ [0x9F] @ [b0] @ replicate 5 1
      \<and> unat b0 = 5"
    using T[of "replicate 5 1"] by simp
  have 2: "\<exists>chunks b0 b1.
        snd (tight_encode (example_env 4 100 (replicate 200 1)) 0 1 2 3 4) = Inr (Some chunks)
      \<and> concat chunks
          = [0, 0, 0, 1, 0, 1, 0, 2, 0, 3, 0, 4, 0, 0, 0, 7] @ [0x9F] @ [b0, b1] @ replicate 200 1
      \<and> unat b0 = 200 \<and> unat b1 = 1"
    using T[of "replicate 200 1"] by (simp add: drop_bit_eq_div)
  have 3: "\<exists>chunks b0 b1 b2.
        snd (tight_encode (example_env 4 100 (replicate 16383 1)) 0 1 2 3 4) = Inr (Some chunks)
      \<and> concat chunks
          = [0, 0, 0, 1, 0, 1, 0, 2, 0, 3, 0, 4, 0, 0, 0, 7] @ [0x9F] @ [b0, b1, b2]
            @ replicate 16383 1
      \<and> unat b0 = 255 \<and> unat b1 = 255 \<and> unat b2 = 0"
    using T[of "replicate 16383 1"] by (simp add: drop_bit_eq_div)
  have 4: "snd (tight_encode (example_env 4 100 (replicate 4194303 1)) 0 1 2 3 4) = Inl AssertionError"
    using T[of "replicate 4194303 1"] by simp
  show ?thesis using 1 2 3 4 by (intro conjI)
qed

subsection \<open>The RAW path\<close>

lemma make_header_range:
  assumes "make_header e x y w h = Inr hdr"
  shows "0 \<le> x \<and> x \<le> 65535 \<and> 0 \<le> y \<and> y \<le> 65535 \<and> 0 \<le> w \<and> w \<le> 65535
       \<and> 0 \<le> h \<and> h \<le> 65535"
  using assms by (simp add: make_header_def pack_B_def pack_H_def split: if_splits)

text \<open>
  Claim C7: when the window has an image and the rectangle fits the header,
  \<open>raw_encode\<close> re-strides the image to \<open>w * 4\<close> if its row stride differs; if the pixel
  buffer then holds at least \<open>4 * w * h\<close> bytes, the data are its first \<open>4 * w * h\<close> bytes,
  exactly that many, returned as one chunk joined to the header when their length is at
  most \<open>PACKET_JOIN_SIZE\<close> and as the two chunks header and data otherwise; if the buffer
  is shorter, the assertion fails.
\<close>

theorem raw_encode_chunks:
  assumes img: "get_image env window x y w h = (Some img, window1)"
    and hdr: "make_header (RAW env) x y w h = Inr hdr"
  shows "let img1 = (if rowstride img \<noteq> w * 4 then restride env img (w * 4) else img);
             data = take (nat (4 * w * h)) (pixels img1)
         in (4 * w * h \<le> int (length (pixels img1)) \<longrightarrow>
               int (length data) = 4 * w * h
               \<and> snd (raw_encode env window x y w h)
                   = Inr (Some (if int (length data) \<le> PACKET_JOIN_SIZE env
                                then [hdr @ data] else [hdr, data])))
          \<and> (int (length (pixels img1)) < 4 * w * h \<longrightarrow>
               snd (raw_encode env window x y w h) = Inl AssertionError)"
proof -
  have "0 \<le> w" "0 \<le> h" using make_header_range[OF hdr] by simp_all
  then have nn: "0 \<le> 4 * w * h" by simp
  show ?thesis
    using img hdr nn by (auto simp: raw_encode_def Let_def py_slice_to_def)
qed

theorem raw_encode_chunks_witness:
  "snd (raw_encode (example_env 4 100 []) 0 1 2 3 4)
     = Inr (Some [[0, 0, 0, 1, 0, 1, 0, 2, 0, 3, 0, 4, 0, 0, 0, 0] @ replicate 48 255])
   \<and> snd (raw_encode (example_env 4 10 []) 0 1 2 3 4)
     = Inr (Some [[0, 0, 0, 1, 0, 1, 0, 2, 0, 3, 0, 4, 0, 0, 0, 0], replicate 48 255])
   \<and> snd (raw_encode (example_env (- 4) 100 []) 0 1 2 3 4) = Inl AssertionError"
proof -
  have g: "get_image (example_env p j []) 0 1 2 3 4
      = (Some \<lparr>rowstride = 12 + p, pixels = replicate (nat ((12 + p) * 4)) 255\<rparr>, 0)" for p j
    by (simp add: example_env_def)
  have h: "make_header (RAW (example_env p j [])) 1 2 3 4
      = Inr [0, 0, 0, 1, 0, 1, 0, 2, 0, 3, 0, 4, 0, 0, 0, 0]" for p j
    by (simp add: example_env_def make_header_def pack_B_def pack_H_def pack_i_def)
  note T = raw_encode_chunks[OF g h]
  have 1: "snd (raw_encode (example_env 4 100 []) 0 1 2 3 4)
     = Inr (Some [[0, 0, 0, 1, 0, 1, 0, 2, 0, 3, 0, 4, 0, 0, 0, 0] @ replicate 48 255])"
    using T[of 4 100] by (simp add: example_env_def Let_def)
  have 2: "snd (raw_encode (example_env 4 10 []) 0 1 2 3 4)
     = Inr (Some [[0, 0, 0, 1, 0, 1, 0, 2, 0, 3, 0, 4, 0, 0, 0, 0], replicate 48 255])"
    using T[of 4 10] by (simp add: example_env_def Let_def)
  have 3: "snd (raw_encode (example_env (- 4) 100 []) 0 1 2 3 4) = Inl AssertionError"
    using T[of "- 4" 100] by (simp add: example_env_def Let_def)
  show ?thesis using 1 2 3 by (intro conjI)
qed
subsection \<open>No image\<close>

text \<open>
  Claim C9: when the window has no image for the rectangle, both encoders return \<open>None\<close>,
  neither an error nor a list, and the window they leave is the acknowledged one; a chunk
  list is returned only when there was an image, and it is never empty; in every case
  the window has been acknowledged.
\<close>

theorem encoders_without_image:
  "(fst (get_image env window x y w h) = None \<longrightarrow>
      raw_encode env window x y w h
        = (acknowledge_changes env (snd (get_image env window x y w h)), Inr None)
      \<and> tight_encode env window x y w h
        = (acknowledge_changes env (snd (get_image env window x y w h)), Inr None))
   \<and> (\<forall>chunks. snd (raw_encode env window x y w h) = Inr (Some chunks) \<longrightarrow>
         fst (get_image env window x y w h) \<noteq> None \<and> chunks \<noteq> [])
   \<and> (\<forall>chunks. snd (tight_encode env window x y w h) = Inr (Some chunks) \<longrightarrow>
         fst (get_image env window x y w h) \<noteq> None \<and> chunks \<noteq> [])
   \<and> fst (raw_encode env window x y w h)
        = acknowledge_changes env (snd (get_image env window x y w h))
   \<and> fst (tight_encode env window x y w h)
        = acknowledge_changes env (snd (get_image env window x y w h))"
proof -
  obtain img window1 where g: "get_image env window x y w h = (img, window1)"
    by (cases "get_image env window x y w h")
  have r: "fst (raw_encode env window x y w h) = acknowledge_changes env window1"
    using g by (simp add: raw_encode_def Let_def split: option.splits sum.splits)
  have t: "fst (tight_encode env window x y w h) = acknowledge_changes env window1"
    using g by (simp add: tight_encode_def Let_def split: option.splits sum.splits)
  have n: "img = None \<longrightarrow>
      raw_encode env window x y w h = (acknowledge_changes env window1, Inr None)
      \<and> tight_encode env window x y w h = (acknowledge_changes env window1, Inr None)"
    using g by (simp add: raw_encode_def tight_encode_def)
  have rs: "\<forall>chunks. snd (raw_encode env window x y w h) = Inr (Some chunks) \<longrightarrow>
         img \<noteq> None \<and> chunks \<noteq> []"
    using g by (auto simp: raw_encode_def Let_def split: option.splits sum.splits if_splits)
  have ts: "\<forall>chunks. snd (tight_encode env window x y w h) = Inr (Some chunks) \<longrightarrow>
         img \<noteq> None \<and> chunks \<noteq> []"
    using g by (auto simp: tight_encode_def Let_def split: option.splits sum.splits if_splits)
  have f: "fst (get_image env window x y w h) = img" using g by simp
  have s: "snd (get_image env window x y w h) = window1" using g by simp
  show ?thesis unfolding f s using r t n rs ts by blast
qed


theorem encoders_without_image_witness:
  "raw_encode (example_env 4 100 [1, 2, 3]) 0 1 2 0 4 = (1, Inr None)
   \<and> tight_encode (example_env 4 100 [1, 2, 3]) 0 1 2 0 4 = (1, Inr None)
   \<and> fst (get_image (example_env 4 100 [1, 2, 3]) 0 1 2 3 4) \<noteq> None
   \<and> snd (tight_encode (example_env 4 100 [1, 2, 3]) 0 1 2 3 4)
       = Inr (Some [[0, 0, 0, 1, 0, 1, 0, 2, 0, 3, 0, 4, 0, 0, 0, 7, 0x9F, 3, 1, 2, 3]])
   \<and> fst (tight_encode (example_env 4 100 [1, 2, 3]) 0 1 2 3 4) = 1"
proof -
  note T0 = encoders_without_image[of "example_env 4 100 [1, 2, 3]" 0 1 2 0 4]
  note T1 = encoders_without_image[of "example_env 4 100 [1, 2, 3]" 0 1 2 3 4]
  have a: "fst (get_image (example_env 4 100 [1, 2, 3]) 0 1 2 0 4) = None"
    "snd (get_image (example_env 4 100 [1, 2, 3]) 0 1 2 0 4) = 0"
    "acknowledge_changes (example_env 4 100 [1, 2, 3]) 0 = 1"
    by (simp_all add: example_env_def)
  have b: "snd (get_image (example_env 4 100 [1, 2, 3]) 0 1 2 3 4) = 0"
    by (simp add: example_env_def)
  have c: "snd (tight_encode (example_env 4 100 [1, 2, 3]) 0 1 2 3 4)
       = Inr (Some [[0, 0, 0, 1, 0, 1, 0, 2, 0, 3, 0, 4, 0, 0, 0, 7, 0x9F, 3, 1, 2, 3]])"
    by (simp add: tight_encode_def example_env_def make_header_def pack_B_def pack_H_def
        pack_i_def tight_length_header_def)
  have 12: "raw_encode (example_env 4 100 [1, 2, 3]) 0 1 2 0 4 = (1, Inr None)
      \<and> tight_encode (example_env 4 100 [1, 2, 3]) 0 1 2 0 4 = (1, Inr None)"
    using T0 unfolding a by blast
  have 3: "fst (get_image (example_env 4 100 [1, 2, 3]) 0 1 2 3 4) \<noteq> None"
    using T1 c by blast
  have 5: "fst (tight_encode (example_env 4 100 [1, 2, 3]) 0 1 2 3 4) = 1"
    using T1 unfolding b a(3) by blast
  show ?thesis using 12 3 c 5 by (intro conjI) blast+
qed

section \<open>Properties of the string functions\<close>

subsection \<open>Bytes and strings\<close>

lemma memoryview_to_bytes_buffer:
  "memoryview_to_bytes builtin_str (PyBytes b) = Inr b"
  "memoryview_to_bytes builtin_str (PyMemoryview b) = Inr b"
  "memoryview_to_bytes builtin_str (PyByteArray b) = Inr b"
  by (simp_all add: memoryview_to_bytes_def)

lemma latin1_decode_encode: "encode_latin1 (decode_latin1 b) = Inr b"
proof -
  have "\<forall>c \<in> set (map unat b). c < 256"
  proof
    fix c assume "c \<in> set (map unat b)"
    then obtain x :: byte where "c = unat x" by auto
    then show "c < 256" using unsigned_less[of x, where 'a = nat] by simp
  qed
  moreover have "map of_nat (map unat b) = b"
    by (induction b) simp_all
  ultimately show ?thesis by (simp add: encode_latin1_def decode_latin1_def)
qed

lemma latin1_encode_decode:
  assumes "\<forall>c \<in> set s. c < 256"
  shows "\<exists>bs. encode_latin1 s = Inr bs \<and> decode_latin1 bs = s"
proof -
  have "map unat (map of_nat s :: pybytes) = s"
    using assms by (induction s) (simp_all add: unat_of_nat)
  then show ?thesis using assms by (simp add: encode_latin1_def decode_latin1_def)
qed

text \<open>
  Claim C8: for every byte string \<open>b\<close>, \<open>strtobytes(bytestostr(b))\<close> is \<open>b\<close>; and for every
  string \<open>s\<close> whose code points are all below 256, \<open>strtobytes(s)\<close> returns bytes and
  \<open>bytestostr\<close> of them is \<open>s\<close>.
\<close>

theorem strtobytes_bytestostr_roundtrip:
  "strtobytes builtin_str (PyStr (bytestostr builtin_str (PyBytes b))) = Inr b
   \<and> ((\<forall>c \<in> set s. c < 256) \<longrightarrow>
        (\<exists>bs. strtobytes builtin_str (PyStr s) = Inr bs
           \<and> bytestostr builtin_str (PyBytes bs) = s))"
proof -
  have 1: "strtobytes builtin_str (PyStr (bytestostr builtin_str (PyBytes b))) = Inr b"
    by (simp add: strtobytes_def bytestostr_def py_str_def latin1_decode_encode)
  have 2: "(\<forall>c \<in> set s. c < 256) \<longrightarrow>
        (\<exists>bs. strtobytes builtin_str (PyStr s) = Inr bs
           \<and> bytestostr builtin_str (PyBytes bs) = s)"
  proof
    assume "\<forall>c \<in> set s. c < 256"
    then obtain bs where "encode_latin1 s = Inr bs" "decode_latin1 bs = s"
      using latin1_encode_decode by blast
    then show "\<exists>bs. strtobytes builtin_str (PyStr s) = Inr bs
           \<and> bytestostr builtin_str (PyBytes bs) = s"
      by (simp add: strtobytes_def bytestostr_def py_str_def)
  qed
  show ?thesis using 1 2 by (rule conjI)
qed

theorem strtobytes_bytestostr_roundtrip_witness:
  "strtobytes (\<lambda>x. []) (PyStr (bytestostr (\<lambda>x. []) (PyBytes [104, 233, 255]))) = Inr [104, 233, 255]
   \<and> (\<exists>bs. strtobytes (\<lambda>x. []) (PyStr [104, 233, 255]) = Inr bs
           \<and> bytestostr (\<lambda>x. []) (PyBytes bs) = [104, 233, 255])"
  using strtobytes_bytestostr_roundtrip[of "\<lambda>x. []" "[104, 233, 255]" "[104, 233, 255]"]
  by simp

subsection \<open>Ellipsized strings\<close>

lemma py_replace_single:
  "py_replace s [c] new = concat (map (\<lambda>x. if x = c then new else [x]) s)"
proof (induction s)
  case Nil
  show ?case by (subst py_replace.simps) simp
next
  case (Cons x xs)
  show ?case by (subst py_replace.simps) (simp add: Cons.IH)
qed

lemma nonl_escape: "nonl s = escape_newlines s"
proof -
  have "concat (map (\<lambda>x. if x = 13 then [92, 114] else [x])
          (concat (map (\<lambda>x. if x = 10 then [92, 110] else [x]) s)))
        = escape_newlines s"
    by (induction s) (simp_all add: escape_newlines_def)
  then show ?thesis
    by (cases "s = []") (simp_all add: nonl_def py_replace_single escape_newlines_def)
qed

lemma escape_newlines_id:
  assumes "10 \<notin> set s" "13 \<notin> set s"
  shows "escape_newlines s = s"
  using assms by (induction s) (simp_all add: escape_newlines_def)

text \<open>
  Claim C10: for a string \<open>obj\<close> without line feed and carriage return and a limit with
  \<open>len(obj) > limit > 6\<close>, \<open>repr_ellipsized(obj, limit)\<close> is the first \<open>limit // 2 - 2\<close>
  and the last \<open>limit // 2 - 2\<close> characters of \<open>obj\<close> joined by \<open>" .. "\<close>, its length is
  exactly \<open>2 * (limit // 2)\<close> and so at most \<open>limit\<close>; when \<open>len(obj) \<le> limit\<close>, the
  result is \<open>obj\<close> with every line feed and carriage return escaped and nothing else
  changed.
\<close>

theorem repr_ellipsized_str:
  "(10 \<notin> set s \<and> 13 \<notin> set s \<and> int (length s) > limit \<and> limit > 6 \<longrightarrow>
      repr_ellipsized builtin_repr (PyStr s) limit
        = take (nat (limit div 2 - 2)) s @ [32, 46, 46, 32]
          @ drop (length s - nat (limit div 2 - 2)) s
      \<and> int (length (repr_ellipsized builtin_repr (PyStr s) limit)) = 2 * (limit div 2)
      \<and> int (length (repr_ellipsized builtin_repr (PyStr s) limit)) \<le> limit)
   \<and> (int (length s) \<le> limit \<longrightarrow>
      repr_ellipsized builtin_repr (PyStr s) limit = escape_newlines s)"
proof -
  have long: "repr_ellipsized builtin_repr (PyStr s) limit
        = take (nat (limit div 2 - 2)) s @ [32, 46, 46, 32]
          @ drop (length s - nat (limit div 2 - 2)) s
      \<and> int (length (repr_ellipsized builtin_repr (PyStr s) limit)) = 2 * (limit div 2)
      \<and> int (length (repr_ellipsized builtin_repr (PyStr s) limit)) \<le> limit"
    if nl: "10 \<notin> set s" "13 \<notin> set s" and len: "int (length s) > limit" and lim: "limit > 6"
  proof -
    define k where "k = nat (limit div 2 - 2)"
    define t where "t = take k s @ [32, 46, 46, 32] @ drop (length s - k) s"
    have k1: "1 \<le> limit div 2 - 2" using lim by linarith
    have kint: "int k = limit div 2 - 2" using k1 by (simp add: k_def)
    have klen: "k \<le> length s" using len kint by linarith
    have to: "py_slice_to s (limit div 2 - 2) = take k s"
      using k1 by (simp add: py_slice_to_def k_def)
    have neg: "\<not> 0 \<le> 2 - limit div 2" using k1 by linarith
    have "nat (- (2 - limit div 2)) = k" by (simp add: k_def)
    then have "from": "py_slice_from s (2 - limit div 2) = drop (length s - k) s"
      using neg by (simp add: py_slice_from_def)
    have "set (take k s) \<subseteq> set s" "set (drop (length s - k) s) \<subseteq> set s"
      by (rule set_take_subset, rule set_drop_subset)
    then have "10 \<notin> set t" "13 \<notin> set t" using nl by (auto simp: t_def)
    then have "nonl t = t" by (simp add: nonl_escape escape_newlines_id)
    then have r: "repr_ellipsized builtin_repr (PyStr s) limit = t"
      using len lim to "from" by (simp add: repr_ellipsized_def ellipsized_def t_def)
    have "length t = k + 4 + k" using klen by (simp add: t_def)
    then have "int (length t) = 2 * (limit div 2)" using kint by linarith
    moreover have "2 * (limit div 2) \<le> limit" by linarith
    ultimately show ?thesis using r unfolding t_def k_def by simp
  qed
  have short: "repr_ellipsized builtin_repr (PyStr s) limit = escape_newlines s"
    if "int (length s) \<le> limit"
    using that by (simp add: repr_ellipsized_def nonl_escape)
  show ?thesis using long short by blast
qed

theorem repr_ellipsized_str_witness:
  "repr_ellipsized (\<lambda>x. []) (PyStr [97, 98, 99, 100, 101, 102, 103, 104, 105, 106, 107]) 9
     = [97, 98, 32, 46, 46, 32, 106, 107]
   \<and> repr_ellipsized (\<lambda>x. []) (PyStr [97, 10, 98, 13]) 9 = [97, 92, 110, 98, 92, 114]"
proof -
  have 1: "repr_ellipsized (\<lambda>x. []) (PyStr [97, 98, 99, 100, 101, 102, 103, 104, 105, 106, 107]) 9
     = [97, 98, 32, 46, 46, 32, 106, 107]"
    using repr_ellipsized_str[of "[97, 98, 99, 100, 101, 102, 103, 104, 105, 106, 107]" 9 "\<lambda>x. []"]
    by simp
  have 2: "repr_ellipsized (\<lambda>x. []) (PyStr [97, 10, 98, 13]) 9 = [97, 92, 110, 98, 92, 114]"
    using repr_ellipsized_str[of "[97, 10, 98, 13]" 9 "\<lambda>x. []"]
    by (simp add: escape_newlines_def)
  show ?thesis using 1 2 by (rule conjI)
qed

section \<open>Properties of the bandwidth-limit handler\<close>

text \<open>
  Claim C3: a \<open>bandwidth-limit\<close> packet whose payload is not a non-negative integer,
  as are \<open>None\<close>, a string, a float, a list, a tuple and a set, fails with the
  TypeError-class validation error and leaves the stored state as it was; a
  non-negative integer is accepted; the session stays active in every case.
\<close>

theorem bandwidth_limit_validation:
  "(\<not> is_non_negative_integer v \<longrightarrow>
      process_bandwidth_limit cap st v = Inl TypeError
      \<and> handle_bandwidth_limit cap st v = (st, Some TypeError))
   \<and> (is_non_negative_integer v \<longrightarrow> snd (handle_bandwidth_limit cap st v) = None)
   \<and> session_active (fst (handle_bandwidth_limit cap st v)) = session_active st
   \<and> (\<forall>u \<in> set [PyNone, PyStr s, PyFloat m e, PyList xs, PyTuple ys, PySet zs].
         \<not> is_non_negative_integer u)"
  by (cases v)
     (simp_all add: is_non_negative_integer_def process_bandwidth_limit_def
        handle_bandwidth_limit_def)

theorem bandwidth_limit_validation_witness:
  "handle_bandwidth_limit (Some 1000000000)
      \<lparr>requested_limit = 0, effective_limit = 1000000000, bytes_sent = 0, session_active = True\<rparr>
      PyNone
    = (\<lparr>requested_limit = 0, effective_limit = 1000000000, bytes_sent = 0, session_active = True\<rparr>,
       Some TypeError)
   \<and> handle_bandwidth_limit (Some 1000000000)
      \<lparr>requested_limit = 0, effective_limit = 1000000000, bytes_sent = 0, session_active = True\<rparr>
      (PyStr [102, 111, 111])
    = (\<lparr>requested_limit = 0, effective_limit = 1000000000, bytes_sent = 0, session_active = True\<rparr>,
       Some TypeError)
   \<and> handle_bandwidth_limit (Some 1000000000)
      \<lparr>requested_limit = 0, effective_limit = 1000000000, bytes_sent = 0, session_active = True\<rparr>
      (PyFloat 1 1)
    = (\<lparr>requested_limit = 0, effective_limit = 1000000000, bytes_sent = 0, session_active = True\<rparr>,
       Some TypeError)
   \<and> handle_bandwidth_limit (Some 1000000000)
      \<lparr>requested_limit = 0, effective_limit = 1000000000, bytes_sent = 0, session_active = True\<rparr>
      (PySet [])
    = (\<lparr>requested_limit = 0, effective_limit = 1000000000, bytes_sent = 0, session_active = True\<rparr>,
       Some TypeError)
   \<and> handle_bandwidth_limit (Some 1000000000)
      \<lparr>requested_limit = 0, effective_limit = 1000000000, bytes_sent = 0, session_active = True\<rparr>
      (PyInt (- 1))
    = (\<lparr>requested_limit = 0, effective_limit = 1000000000, bytes_sent = 0, session_active = True\<rparr>,
       Some TypeError)
   \<and> snd (handle_bandwidth_limit (Some 1000000000)
        \<lparr>requested_limit = 0, effective_limit = 1000000000, bytes_sent = 0, session_active = True\<rparr>
        (PyInt 10485760)) = None"
proof -
  let ?st = "\<lparr>requested_limit = 0, effective_limit = 1000000000, bytes_sent = 0,
               session_active = True\<rparr>"
  note T = bandwidth_limit_validation[of _ "Some 1000000000" ?st]
  have rej: "handle_bandwidth_limit (Some 1000000000) ?st u = (?st, Some TypeError)"
    if "\<not> is_non_negative_integer u" for u
    using T[of u] that by blast
  have acc: "snd (handle_bandwidth_limit (Some 1000000000) ?st (PyInt 10485760)) = None"
    using T[of "PyInt 10485760"] by (simp add: is_non_negative_integer_def)
  have n: "\<not> is_non_negative_integer PyNone" "\<not> is_non_negative_integer (PyStr [102, 111, 111])"
    "\<not> is_non_negative_integer (PyFloat 1 1)" "\<not> is_non_negative_integer (PySet [])"
    "\<not> is_non_negative_integer (PyInt (- 1))"
    by (simp_all add: is_non_negative_integer_def)
  show ?thesis using rej[OF n(1)] rej[OF n(2)] rej[OF n(3)] rej[OF n(4)] rej[OF n(5)] acc
    by (intro conjI)
qed

text \<open>
  Claim C4: for an accepted request \<open>r\<close> under the process-wide cap \<open>C\<close>, the effective
  limit is \<open>min(r, C)\<close>; it never exceeds the cap, and a request above the cap gives the
  cap.
\<close>

theorem bandwidth_limit_cap:
  "0 \<le> r \<longrightarrow>
     snd (handle_bandwidth_limit (Some C) st (PyInt r)) = None
     \<and> effective_limit (fst (handle_bandwidth_limit (Some C) st (PyInt r))) = min r C
     \<and> effective_limit (fst (handle_bandwidth_limit (Some C) st (PyInt r))) \<le> C
     \<and> (C < r \<longrightarrow> effective_limit (fst (handle_bandwidth_limit (Some C) st (PyInt r))) = C)"
  by (simp add: process_bandwidth_limit_def handle_bandwidth_limit_def)

theorem bandwidth_limit_cap_witness:
  "effective_limit (fst (handle_bandwidth_limit (Some 1000000000)
      \<lparr>requested_limit = 0, effective_limit = 1000000000, bytes_sent = 0, session_active = True\<rparr>
      (PyInt 10485760))) = 10485760
   \<and> effective_limit (fst (handle_bandwidth_limit (Some 1000000000)
      \<lparr>requested_limit = 0, effective_limit = 1000000000, bytes_sent = 0, session_active = True\<rparr>
      (PyInt 2000000000))) = 1000000000"
proof -
  let ?st = "\<lparr>requested_limit = 0, effective_limit = 1000000000, bytes_sent = 0,
               session_active = True\<rparr>"
  have 1: "effective_limit (fst (handle_bandwidth_limit (Some 1000000000) ?st (PyInt 10485760)))
      = 10485760"
    using bandwidth_limit_cap[of 10485760 1000000000 ?st] by simp
  have 2: "effective_limit (fst (handle_bandwidth_limit (Some 1000000000) ?st (PyInt 2000000000)))
      = 1000000000"
    using bandwidth_limit_cap[of 2000000000 1000000000 ?st] by simp
  show ?thesis using 1 2 by (rule conjI)
qed

section \<open>Properties of the callee of the Subprocess Bridge\<close>

lemma method_name_map:
  "method_name n = map (\<lambda>x. if x = CHR ''-'' then CHR ''_'' else x) n"
proof -
  have "concat (map (\<lambda>x. if x = CHR ''-'' then ''_'' else [x]) n)
      = map (\<lambda>x. if x = CHR ''-'' then CHR ''_'' else x) n"
    by (induction n) simp_all
  then show ?thesis by (simp add: method_name_def py_replace_single)
qed

lemma callee_run_whitelist: "method_whitelist (callee_run c ps) = method_whitelist c"
  by (induction ps arbitrary: c) (simp_all add: callee_process_packet_def Let_def)

lemma callee_run_invoked:
  "invoked (callee_run c ps)
     = invoked c @ map (\<lambda>p. (method_name (fst p), snd p))
         (filter (\<lambda>p. method_name (fst p) \<in> set (method_whitelist c)) ps)"
  by (induction ps arbitrary: c) (simp_all add: callee_process_packet_def Let_def)

lemma callee_run_dropped:
  "dropped_log (callee_run c ps)
     = dropped_log c @ map (\<lambda>p. method_name (fst p))
         (filter (\<lambda>p. method_name (fst p) \<notin> set (method_whitelist c)) ps)"
  by (induction ps arbitrary: c) (simp_all add: callee_process_packet_def Let_def)

text \<open>
  Claim C1, as it is worded, says that a packet whose name is not in the whitelist never
  causes a method invocation. With the whitelist of the test, the name \<open>test-signal\<close> is
  not in the whitelist, and the packet of that name invokes the method \<open>test_signal\<close> with
  the packet's argument, as the test expects.
\<close>

theorem callee_hyphen_counterexample:
  "''test-signal'' \<notin> set [''test_signal'', ''loop_stop'', ''unused'']
   \<and> invoked (callee_process_packet
        \<lparr>method_whitelist = [''test_signal'', ''loop_stop'', ''unused''], invoked = [], dropped_log = []\<rparr>
        (''test-signal'', [PyBytes [104, 101, 108, 108, 111, 32, 102, 111, 111]]))
       = [(''test_signal'', [PyBytes [104, 101, 108, 108, 111, 32, 102, 111, 111]])]"
  by (simp add: callee_process_packet_def method_name_map Let_def)

text \<open>
  Claim C1, amended: the method name of a packet is its name with every hyphen replaced
  by an underscore. In every state that the callee reaches by receiving packets, a
  packet whose method name is in the whitelist invokes that method on the wrapped object
  with the packet's arguments, and a packet whose method name is not in the whitelist is
  logged and invokes nothing; so the calls made are exactly the received packets with a
  whitelisted method name, in the order received, and the whitelist never changes.
\<close>

theorem callee_whitelist:
  "(method_name (fst p) \<in> set (method_whitelist c) \<longrightarrow>
      invoked (callee_process_packet (callee_run c ps) p)
        = invoked (callee_run c ps) @ [(method_name (fst p), snd p)])
   \<and> (method_name (fst p) \<notin> set (method_whitelist c) \<longrightarrow>
      invoked (callee_process_packet (callee_run c ps) p) = invoked (callee_run c ps)
      \<and> dropped_log (callee_process_packet (callee_run c ps) p)
          = dropped_log (callee_run c ps) @ [method_name (fst p)])
   \<and> invoked (callee_run c ps)
       = invoked c @ map (\<lambda>p. (method_name (fst p), snd p))
           (filter (\<lambda>p. method_name (fst p) \<in> set (method_whitelist c)) ps)
   \<and> dropped_log (callee_run c ps)
       = dropped_log c @ map (\<lambda>p. method_name (fst p))
           (filter (\<lambda>p. method_name (fst p) \<notin> set (method_whitelist c)) ps)
   \<and> method_whitelist (callee_run c ps) = method_whitelist c
   \<and> method_name (fst p) = map (\<lambda>x. if x = CHR ''-'' then CHR ''_'' else x) (fst p)"
  using callee_run_whitelist[of c ps] callee_run_invoked[of c ps] callee_run_dropped[of c ps]
    method_name_map[of "fst p"]
  by (simp add: callee_process_packet_def Let_def)

theorem callee_whitelist_witness:
  "invoked (callee_process_packet
      \<lparr>method_whitelist = [''test_signal'', ''loop_stop'', ''unused''], invoked = [], dropped_log = []\<rparr>
      (''test-signal'', [PyBytes [104, 101, 108, 108, 111, 32, 102, 111, 111]]))
     = [(''test_signal'', [PyBytes [104, 101, 108, 108, 111, 32, 102, 111, 111]])]
   \<and> invoked (callee_process_packet
      \<lparr>method_whitelist = [''test_signal'', ''loop_stop'', ''unused''], invoked = [], dropped_log = []\<rparr>
      (''unused_method'', [])) = []
   \<and> invoked (callee_run
      \<lparr>method_whitelist = [''test_signal'', ''loop_stop'', ''unused''], invoked = [], dropped_log = []\<rparr>
      [(''test-signal'', [PyBytes [104, 101, 108, 108, 111, 32, 102, 111, 111]]), (''unused_method'', []),
       (''loop_stop'', [])])
     = [(''test_signal'', [PyBytes [104, 101, 108, 108, 111, 32, 102, 111, 111]]), (''loop_stop'', [])]
   \<and> dropped_log (callee_run
      \<lparr>method_whitelist = [''test_signal'', ''loop_stop'', ''unused''], invoked = [], dropped_log = []\<rparr>
      [(''test-signal'', [PyBytes [104, 101, 108, 108, 111, 32, 102, 111, 111]]), (''unused_method'', []),
       (''loop_stop'', [])])
     = [''unused_method'']"
proof -
  let ?c = "\<lparr>method_whitelist = [''test_signal'', ''loop_stop'', ''unused''], invoked = [], dropped_log = []\<rparr>"
  let ?sig = "(''test-signal'', [PyBytes [104, 101, 108, 108, 111, 32, 102, 111, 111]])"
  let ?ps = "[?sig, (''unused_method'', []), (''loop_stop'', [])]"
  have 1: "invoked (callee_process_packet ?c ?sig)
      = [(''test_signal'', [PyBytes [104, 101, 108, 108, 111, 32, 102, 111, 111]])]"
    using callee_whitelist[of ?sig ?c "[]"] by simp
  have 2: "invoked (callee_process_packet ?c (''unused_method'', [])) = []"
    using callee_whitelist[of "(''unused_method'', [])" ?c "[]"] by simp
  have 3: "invoked (callee_run ?c ?ps)
      = [(''test_signal'', [PyBytes [104, 101, 108, 108, 111, 32, 102, 111, 111]]), (''loop_stop'', [])]"
    "dropped_log (callee_run ?c ?ps) = [''unused_method'']"
    using callee_whitelist[of "(''unused_method'', [])" ?c ?ps]
    by (simp_all add: method_name_map)
  show ?thesis using 1 2 3 by (intro conjI)
qed

end
